theory Spec2Isabelle
  imports Main
begin

section \<open>Operands of an xfunction node\<close>

text \<open>
  \<open>xfunction<F, CT...>\<close> (include/xtensor/xfunction.hpp) is a template over its operand
  types: it uses each operand only through the member functions it calls on it. An
  operand that is not an \<open>xscalar\<close> is therefore given by those member functions, one
  record field each. Extents and indices (\<open>size_type\<close>) are natural numbers; the
  overflow of \<open>std::size_t\<close> plays no part in what is proved below.
  \<^item> \<open>e_dimension\<close> is \<open>e.dimension()\<close>;
  \<^item> \<open>e_broadcast_shape\<close> is \<open>e.broadcast_shape(shape)\<close>: it takes the output shape it is
    handed, and returns the shape it leaves behind and its boolean result;
  \<^item> \<open>e_access\<close> is \<open>e(args...)\<close>, \<open>e_data_element\<close> is \<open>e.data_element(i)\<close>.

  Every call of an operand is taken to return. The node relies on its operands being
  broadcast-compatible with the shape it resolves; an operand that finds otherwise says
  so on its own, and the header has no code for that case.
\<close>

record 'v xexpression =
  e_dimension :: nat
  e_broadcast_shape :: "nat list \<Rightarrow> nat list \<times> bool"
  e_access :: "nat list \<Rightarrow> 'v"
  e_data_element :: "nat \<Rightarrow> 'v"

text \<open>
  The header singles out one operand type, \<open>xscalar<CT>\<close> (\<open>all_xscalar\<close>,
  \<open>get_iterator_impl<xscalar<CT>>\<close>), so it is a constructor of its own.
\<close>

datatype 'v operand = XScalar 'v | XExpr "'v xexpression"

text \<open>
  Modelled from the spec: the member functions of \<open>xscalar\<close> (xscalar.hpp is not part of
  the sources at hand). The spec calls it a rank-0 scalar wrapper: its rank is 0, it has a
  sole value, which every element access yields, and it leaves an output shape as it is,
  with nothing stretched.
\<close>

fun operand_dimension :: "'v operand \<Rightarrow> nat" where
  "operand_dimension (XScalar v) = 0"
| "operand_dimension (XExpr e) = e_dimension e"

fun operand_broadcast_shape :: "'v operand \<Rightarrow> nat list \<Rightarrow> nat list \<times> bool" where
  "operand_broadcast_shape (XScalar v) out = (out, True)"
| "operand_broadcast_shape (XExpr e) out = e_broadcast_shape e out"

fun operand_access :: "'v operand \<Rightarrow> nat list \<Rightarrow> 'v" where
  "operand_access (XScalar v) args = v"
| "operand_access (XExpr e) args = e_access e args"

fun operand_data_element :: "'v operand \<Rightarrow> nat \<Rightarrow> 'v" where
  "operand_data_element (XScalar v) i = v"
| "operand_data_element (XExpr e) i = e_data_element e i"

fun is_xscalar :: "'v operand \<Rightarrow> bool" where
  "is_xscalar (XScalar v) = True"
| "is_xscalar (XExpr e) = False"

section \<open>The node and its shape cache\<close>

text \<open>
  \<open>detail::xfunction_cache_impl\<close>. The general template holds the three members at run
  time; its constructor sets \<open>shape\<close> to an empty sequence and \<open>is_initialized\<close> to
  false, and leaves \<open>is_trivial\<close> without a value, so that value is a parameter here. The
  specialisation for \<open>fixed_shape<N...>\<close> has the three as constants, \<open>is_initialized\<close>
  being true.
\<close>

record xfunction_cache_impl =
  shape :: "nat list"
  is_trivial :: bool
  is_initialized :: bool

definition xfunction_cache_dynamic :: "bool \<Rightarrow> xfunction_cache_impl" where
  "xfunction_cache_dynamic indeterminate =
     \<lparr>shape = [], is_trivial = indeterminate, is_initialized = False\<rparr>"

definition xfunction_cache_fixed :: "nat list \<Rightarrow> bool \<Rightarrow> xfunction_cache_impl" where
  "xfunction_cache_fixed N is_shape_trivial =
     \<lparr>shape = N, is_trivial = is_shape_trivial, is_initialized = True\<rparr>"

text \<open>
  The node: the operand tuple \<open>m_e\<close> (a list, in tuple order), the functor \<open>m_f\<close> (applied
  to the list of one value per operand) and the mutable \<open>m_cache\<close>. \<open>is_fixed\<close> is
  \<open>detail::is_fixed<shape_type>::value\<close>, a property of the instantiation. \<open>calls\<close> is not a
  member of the class: it is the log of the operands whose \<open>broadcast_shape\<close> has been
  invoked, by position in \<open>m_e\<close>, oldest first, kept to count these invocations.
  A member function that writes the cache returns the node it leaves behind.
\<close>

record 'v xfunction =
  m_e :: "'v operand list"
  m_f :: "'v list \<Rightarrow> 'v"
  m_cache :: xfunction_cache_impl
  is_fixed :: bool
  calls :: "nat list"

definition xfunction_dynamic :: "('v list \<Rightarrow> 'v) \<Rightarrow> 'v operand list \<Rightarrow> bool \<Rightarrow> 'v xfunction" where
  "xfunction_dynamic f e indeterminate =
     \<lparr>m_e = e, m_f = f, m_cache = xfunction_cache_dynamic indeterminate,
      is_fixed = False, calls = []\<rparr>"

definition xfunction_fixed ::
  "('v list \<Rightarrow> 'v) \<Rightarrow> 'v operand list \<Rightarrow> nat list \<Rightarrow> bool \<Rightarrow> 'v xfunction" where
  "xfunction_fixed f e N is_shape_trivial =
     \<lparr>m_e = e, m_f = f, m_cache = xfunction_cache_fixed N is_shape_trivial,
      is_fixed = True, calls = []\<rparr>"

text \<open>
  Modelled from the spec: \<open>accumulate(func, init, tuple)\<close> (xutils.hpp is not part of the
  sources at hand) folds \<open>func\<close> over the operands from the first to the last, the result
  of one call being the first argument of the next.
\<close>

fun accumulate :: "('r \<Rightarrow> 'e \<Rightarrow> 'r) \<Rightarrow> 'r \<Rightarrow> 'e list \<Rightarrow> 'r" where
  "accumulate func init [] = init"
| "accumulate func init (e # es) = accumulate func (func init e) es"

text \<open>\<open>xtl::make_sequence<S>(n, v)\<close>: a sequence of \<open>n\<close> entries \<open>v\<close>.\<close>

definition make_sequence :: "nat \<Rightarrow> nat \<Rightarrow> nat list" where
  "make_sequence n v = replicate n v"

text \<open>
  \<open>std::copy(first, last, d_first)\<close> writes the source over the leading entries of the
  destination and never grows it. A destination with fewer entries than the source is
  undefined behaviour: \<open>None\<close>.
\<close>

definition std_copy :: "nat list \<Rightarrow> nat list \<Rightarrow> nat list option" where
  "std_copy src dst =
     (if length src \<le> length dst then Some (src @ drop (length src) dst) else None)"

definition compute_dimension :: "'v xfunction \<Rightarrow> nat" where
  "compute_dimension node =
     accumulate (\<lambda>d e. max d (operand_dimension e)) 0 (m_e node)"

text \<open>
  The lambda of \<open>broadcast_shape\<close>, \<open>[&shape](bool b, auto&& e) { return
  e.broadcast_shape(shape) && b; }\<close>. It captures \<open>shape\<close> by reference, so the shape
  travels with the accumulated boolean; so does the call log. The operand's call is the
  left operand of \<open>&&\<close>: it is evaluated whatever \<open>b\<close> is.
\<close>

fun broadcast_shape_func ::
  "bool \<times> nat list \<times> nat list \<Rightarrow> nat \<times> 'v operand \<Rightarrow> bool \<times> nat list \<times> nat list" where
  "broadcast_shape_func (b, out, trace) (i, e) =
     (case operand_broadcast_shape e out of
        (out', r) \<Rightarrow> (r \<and> b, out', trace @ [i]))"

text \<open>
  \<open>xfunction::broadcast_shape(shape, reuse_cache)\<close>. The result is the shape left in the
  caller's sequence, the boolean returned, and the node; \<open>None\<close> is the undefined
  behaviour of \<open>std::copy\<close>.
\<close>

definition broadcast_shape ::
  "'v xfunction \<Rightarrow> nat list \<Rightarrow> bool \<Rightarrow> ((nat list \<times> bool) \<times> 'v xfunction) option" where
  "broadcast_shape node out reuse_cache =
     (if is_initialized (m_cache node) \<and> reuse_cache then
        (case std_copy (shape (m_cache node)) out of
           None \<Rightarrow> None
         | Some out' \<Rightarrow> Some ((out', is_trivial (m_cache node)), node))
      else
        (case accumulate broadcast_shape_func (True, out, calls node)
                (enumerate 0 (m_e node)) of
           (b, out', trace) \<Rightarrow> Some ((out', b), node\<lparr>calls := trace\<rparr>)))"

text \<open>
  \<open>xfunction::compute_cached_shape\<close>: the three assignments to \<open>m_cache\<close>, in order. The
  call \<open>broadcast_shape(m_cache.shape, false)\<close> writes into the cached sequence itself.
\<close>

definition compute_cached_shape :: "'v xfunction \<Rightarrow> 'v xfunction option" where
  "compute_cached_shape node =
     (let node1 = node\<lparr>m_cache := (m_cache node)
                    \<lparr>shape := make_sequence (compute_dimension node) 0\<rparr>\<rparr>
      in case broadcast_shape node1 (shape (m_cache node1)) False of
           None \<Rightarrow> None
         | Some ((out, b), node2) \<Rightarrow>
             Some (node2\<lparr>m_cache := (m_cache node2)
                     \<lparr>shape := out, is_trivial := b, is_initialized := True\<rparr>\<rparr>))"

text \<open>
  \<open>xfunction::dimension\<close>, a \<open>const\<close> member that reads the cache and calls
  \<open>compute_dimension\<close>; neither writes a member.
\<close>

definition dimension :: "'v xfunction \<Rightarrow> nat" where
  "dimension node =
     (if is_initialized (m_cache node) then length (shape (m_cache node))
      else compute_dimension node)"

text \<open>
  \<open>xfunction::shape\<close>: under \<open>static_if<!is_fixed>\<close> the cache is filled when it is not
  initialized; the cached sequence is returned.
\<close>

definition xfunction_shape :: "'v xfunction \<Rightarrow> (nat list \<times> 'v xfunction) option" where
  "xfunction_shape node =
     (case (if \<not> is_fixed node
            then (if \<not> is_initialized (m_cache node) then compute_cached_shape node
                  else Some node)
            else Some node) of
        None \<Rightarrow> None
      | Some node' \<Rightarrow> Some (shape (m_cache node'), node'))"

text \<open>
  Modelled from the spec: \<open>compute_size\<close> (xstrides.hpp is not part of the sources at
  hand); \<open>size()\<close> is the product of all shape dimensions.
\<close>

definition compute_size :: "nat list \<Rightarrow> nat" where
  "compute_size s = prod_list s"

definition xfunction_size :: "'v xfunction \<Rightarrow> (nat \<times> 'v xfunction) option" where
  "xfunction_size node =
     (case xfunction_shape node of
        None \<Rightarrow> None
      | Some (s, node') \<Rightarrow> Some (compute_size s, node'))"

section \<open>Element access\<close>

text \<open>
  Modelled from the spec: the macros \<open>XTENSOR_TRY\<close> and \<open>XTENSOR_CHECK_DIMENSION\<close> and the
  functions \<open>check_index\<close> and \<open>check_dimension\<close> (xexception.hpp is not part of the sources
  at hand). Checked access validates the index count against the rank and each index
  against its dimension, only in a build with validation enabled; a failed validation is
  signalled as an assertion-category failure; in a production build the macros expand to
  nothing, so their argument, the call of \<open>shape()\<close> included, is not evaluated.
\<close>

datatype error = Assertion_failure

definition check_index :: "nat list \<Rightarrow> nat list \<Rightarrow> bool" where
  "check_index s args = list_all (\<lambda>(i, n). i < n) (zip args s)"

definition check_dimension :: "nat list \<Rightarrow> nat list \<Rightarrow> bool" where
  "check_dimension s args = (length args = length s)"

definition xtensor_try ::
  "bool \<Rightarrow> ('n \<Rightarrow> (bool \<times> 'n) option) \<Rightarrow> 'n \<Rightarrow> ((error + unit) \<times> 'n) option" where
  "xtensor_try validation expr node =
     (if validation then
        (case expr node of
           None \<Rightarrow> None
         | Some (passed, node') \<Rightarrow>
             Some (if passed then Inr () else Inl Assertion_failure, node'))
      else Some (Inr (), node))"

definition xtensor_check_dimension ::
  "bool \<Rightarrow> ('n \<Rightarrow> (bool \<times> 'n) option) \<Rightarrow> 'n \<Rightarrow> ((error + unit) \<times> 'n) option" where
  "xtensor_check_dimension validation expr node = xtensor_try validation expr node"

text \<open>
  \<open>xfunction::access_impl\<close>: \<open>XTENSOR_TRY(check_index(shape(), args...))\<close>, then
  \<open>XTENSOR_CHECK_DIMENSION(shape(), args...)\<close>, then the functor on one element of each
  operand, every operand being handed the same \<open>args\<close>. The argument of a macro is an
  expression that calls \<open>shape()\<close> on the node and yields whether the check passed. An
  exception leaves the function at once, with the cache as \<open>shape()\<close> left it.
\<close>

definition access_impl ::
  "bool \<Rightarrow> 'v xfunction \<Rightarrow> nat list \<Rightarrow> ((error + 'v) \<times> 'v xfunction) option" where
  "access_impl validation node args =
     (case xtensor_try validation
             (\<lambda>n. case xfunction_shape n of
                     None \<Rightarrow> None
                   | Some (s, n') \<Rightarrow> Some (check_index s args, n')) node of
        None \<Rightarrow> None
      | Some (Inl err, node1) \<Rightarrow> Some (Inl err, node1)
      | Some (Inr u, node1) \<Rightarrow>
          (case xtensor_check_dimension validation
                  (\<lambda>n. case xfunction_shape n of
                          None \<Rightarrow> None
                        | Some (s, n') \<Rightarrow> Some (check_dimension s args, n')) node1 of
             None \<Rightarrow> None
           | Some (Inl err, node2) \<Rightarrow> Some (Inl err, node2)
           | Some (Inr u', node2) \<Rightarrow>
               Some (Inr (m_f node2 (map (\<lambda>e. operand_access e args) (m_e node2))),
                     node2)))"

text \<open>\<open>operator()(args...) const\<close>, \<open>operator[](size_type i)\<close>, \<open>data_element(i)\<close>.\<close>

definition call_operator ::
  "bool \<Rightarrow> 'v xfunction \<Rightarrow> nat list \<Rightarrow> ((error + 'v) \<times> 'v xfunction) option" where
  "call_operator validation node args = access_impl validation node args"

definition subscript ::
  "bool \<Rightarrow> 'v xfunction \<Rightarrow> nat \<Rightarrow> ((error + 'v) \<times> 'v xfunction) option" where
  "subscript validation node i = call_operator validation node [i]"

definition data_element :: "'v xfunction \<Rightarrow> nat \<Rightarrow> 'v" where
  "data_element node i = m_f node (map (\<lambda>e. operand_data_element e i) (m_e node))"

text \<open>
  \<open>only_scalar = all_xscalar<CT...>\<close>, and \<open>operator value_type()\<close>, which
  \<open>enable_if<UT::only_scalar::value>\<close> removes from every other instantiation: the outer
  \<open>None\<close> is "no such conversion".
\<close>

definition only_scalar :: "'v xfunction \<Rightarrow> bool" where
  "only_scalar node = list_all is_xscalar (m_e node)"

definition operator_value_type ::
  "bool \<Rightarrow> 'v xfunction \<Rightarrow> ((error + 'v) \<times> 'v xfunction) option option" where
  "operator_value_type validation node =
     (if only_scalar node then Some (call_operator validation node []) else None)"

section \<open>Sequences of calls on one node\<close>

text \<open>
  A client of the node: the calls that read the shape cache, made one after the other on
  the same node, each on the node the previous one left.
\<close>

datatype request = Shape | Dimension | Size | Access "nat list"

datatype 'v reply = Shape_ref "nat list" | Number nat | Element "error + 'v"

fun serve :: "bool \<Rightarrow> request \<Rightarrow> 'v xfunction \<Rightarrow> ('v reply \<times> 'v xfunction) option" where
  "serve validation Shape node =
     (case xfunction_shape node of
        None \<Rightarrow> None | Some (s, node') \<Rightarrow> Some (Shape_ref s, node'))"
| "serve validation Dimension node = Some (Number (dimension node), node)"
| "serve validation Size node =
     (case xfunction_size node of
        None \<Rightarrow> None | Some (n, node') \<Rightarrow> Some (Number n, node'))"
| "serve validation (Access args) node =
     (case call_operator validation node args of
        None \<Rightarrow> None | Some (r, node') \<Rightarrow> Some (Element r, node'))"

fun serve_all ::
  "bool \<Rightarrow> request list \<Rightarrow> 'v xfunction \<Rightarrow> ('v reply list \<times> 'v xfunction) option" where
  "serve_all validation [] node = Some ([], node)"
| "serve_all validation (q # qs) node =
     (case serve validation q node of
        None \<Rightarrow> None
      | Some (r, node') \<Rightarrow>
          (case serve_all validation qs node' of
             None \<Rightarrow> None
           | Some (rs, node'') \<Rightarrow> Some (r # rs, node'')))"

text \<open>
  What the claims say of \<open>broadcast_shape\<close>, in their words: the shape the operands
  \<open>es\<close> leave behind when each is handed the shape the previous one left, and the
  result of the \<open>i\<close>-th operand's own call.
\<close>

definition shape_after :: "'v operand list \<Rightarrow> nat list \<Rightarrow> nat list" where
  "shape_after es out = foldl (\<lambda>s e. fst (operand_broadcast_shape e s)) out es"

definition operand_result :: "'v operand list \<Rightarrow> nat list \<Rightarrow> nat \<Rightarrow> bool" where
  "operand_result es out i =
     snd (operand_broadcast_shape (es ! i) (shape_after (take i es) out))"

text \<open>
  The shape and the flag a fill of the cache stores, and the shape \<open>shape()\<close> returns. A
  cache is consistent when, once initialized, it holds what a fill stores; for a fixed
  shape this says that the compile-time shape is the broadcast of the operands' shapes.
\<close>

definition resolved_shape :: "'v xfunction \<Rightarrow> nat list" where
  "resolved_shape node =
     shape_after (m_e node) (make_sequence (compute_dimension node) 0)"

definition resolved_trivial :: "'v xfunction \<Rightarrow> bool" where
  "resolved_trivial node =
     list_all (operand_result (m_e node) (make_sequence (compute_dimension node) 0))
       [0..<length (m_e node)]"

definition cache_consistent :: "'v xfunction \<Rightarrow> bool" where
  "cache_consistent node =
     (if is_initialized (m_cache node)
      then shape (m_cache node) = resolved_shape node \<and>
           is_trivial (m_cache node) = resolved_trivial node
      else \<not> is_fixed node)"

section \<open>The flat iterator\<close>

text \<open>
  \<open>xfunction_iterator<F, CT...>\<close> holds a tuple \<open>m_it\<close> of one cursor per operand, of type
  \<open>get_iterator<const std::decay_t<CT>>\<close>: the operand's own \<open>const_storage_iterator\<close>, or
  the \<open>const_dummy_iterator\<close> of an \<open>xscalar\<close>. The operators of an operand's storage
  iterator belong to its type, which the header does not fix: they are the fields of a
  record that a genuine cursor carries with its state \<open>'c\<close>. \<open>difference_type\<close> is a signed
  integer, \<open>int\<close> here; its overflow plays no part below.
\<close>

record ('c, 'v) storage_iterator =
  it_inc :: "'c \<Rightarrow> 'c"
  it_dec :: "'c \<Rightarrow> 'c"
  it_add :: "int \<Rightarrow> 'c \<Rightarrow> 'c"
  it_sub :: "int \<Rightarrow> 'c \<Rightarrow> 'c"
  it_minus :: "'c \<Rightarrow> 'c \<Rightarrow> int"
  it_deref :: "'c \<Rightarrow> 'v"
  it_eq :: "'c \<Rightarrow> 'c \<Rightarrow> bool"
  it_lt :: "'c \<Rightarrow> 'c \<Rightarrow> bool"

datatype ('c, 'v) cursor = Genuine "('c, 'v) storage_iterator" 'c | Placeholder 'v

text \<open>
  Modelled from the spec: the placeholder cursor of a scalar operand (\<open>xdummy_iterator\<close>,
  in xscalar.hpp, is not part of the sources at hand). It has nothing to iterate: it
  ignores every request to move, its current value is the scalar's sole value, it is at
  distance 0 from the placeholder of the same operand, equal to it and not before it.
  Two cursors of one operand have one type, so a genuine cursor never meets a
  placeholder; the equations for that case only make the functions total.
\<close>

fun cursor_inc :: "('c, 'v) cursor \<Rightarrow> ('c, 'v) cursor" where
  "cursor_inc (Genuine ops c) = Genuine ops (it_inc ops c)"
| "cursor_inc (Placeholder v) = Placeholder v"

fun cursor_dec :: "('c, 'v) cursor \<Rightarrow> ('c, 'v) cursor" where
  "cursor_dec (Genuine ops c) = Genuine ops (it_dec ops c)"
| "cursor_dec (Placeholder v) = Placeholder v"

fun cursor_add :: "int \<Rightarrow> ('c, 'v) cursor \<Rightarrow> ('c, 'v) cursor" where
  "cursor_add n (Genuine ops c) = Genuine ops (it_add ops n c)"
| "cursor_add n (Placeholder v) = Placeholder v"

fun cursor_sub :: "int \<Rightarrow> ('c, 'v) cursor \<Rightarrow> ('c, 'v) cursor" where
  "cursor_sub n (Genuine ops c) = Genuine ops (it_sub ops n c)"
| "cursor_sub n (Placeholder v) = Placeholder v"

fun cursor_minus :: "('c, 'v) cursor \<Rightarrow> ('c, 'v) cursor \<Rightarrow> int" where
  "cursor_minus (Genuine ops c) (Genuine ops' c') = it_minus ops c c'"
| "cursor_minus (Placeholder v) (Placeholder v') = 0"
| "cursor_minus (Genuine ops c) (Placeholder v') = 0"
| "cursor_minus (Placeholder v) (Genuine ops' c') = 0"

fun cursor_deref :: "('c, 'v) cursor \<Rightarrow> 'v" where
  "cursor_deref (Genuine ops c) = it_deref ops c"
| "cursor_deref (Placeholder v) = v"

fun cursor_eq :: "('c, 'v) cursor \<Rightarrow> ('c, 'v) cursor \<Rightarrow> bool" where
  "cursor_eq (Genuine ops c) (Genuine ops' c') = it_eq ops c c'"
| "cursor_eq (Placeholder v) (Placeholder v') = True"
| "cursor_eq (Genuine ops c) (Placeholder v') = False"
| "cursor_eq (Placeholder v) (Genuine ops' c') = False"

fun cursor_lt :: "('c, 'v) cursor \<Rightarrow> ('c, 'v) cursor \<Rightarrow> bool" where
  "cursor_lt (Genuine ops c) (Genuine ops' c') = it_lt ops c c'"
| "cursor_lt (Placeholder v) (Placeholder v') = False"
| "cursor_lt (Genuine ops c) (Placeholder v') = False"
| "cursor_lt (Placeholder v) (Genuine ops' c') = False"

fun is_not_xdummy_iterator :: "('c, 'v) cursor \<Rightarrow> bool" where
  "is_not_xdummy_iterator (Genuine ops c) = True"
| "is_not_xdummy_iterator (Placeholder v) = False"

text \<open>
  Modelled from the spec: \<open>for_each(f, tuple)\<close> (xutils.hpp) applies \<open>f\<close> to every element
  of the tuple; \<open>xtl::mpl::find_if<pred, tuple>::value\<close> (xtl) is the position of the first
  element type that satisfies \<open>pred\<close>, and the size of the tuple when there is none.
\<close>

definition for_each :: "('a \<Rightarrow> 'a) \<Rightarrow> 'a list \<Rightarrow> 'a list" where
  "for_each f t = map f t"

fun find_if :: "('a \<Rightarrow> bool) \<Rightarrow> 'a list \<Rightarrow> nat" where
  "find_if pred [] = 0"
| "find_if pred (x # xs) = (if pred x then 0 else Suc (find_if pred xs))"

record ('c, 'v) xfunction_iterator =
  p_f :: "'v xfunction"
  m_it :: "('c, 'v) cursor list"

definition increment :: "('c, 'v) xfunction_iterator \<Rightarrow> ('c, 'v) xfunction_iterator" where
  "increment it = it\<lparr>m_it := for_each cursor_inc (m_it it)\<rparr>"

definition decrement :: "('c, 'v) xfunction_iterator \<Rightarrow> ('c, 'v) xfunction_iterator" where
  "decrement it = it\<lparr>m_it := for_each cursor_dec (m_it it)\<rparr>"

definition plus_assign ::
  "('c, 'v) xfunction_iterator \<Rightarrow> int \<Rightarrow> ('c, 'v) xfunction_iterator" where
  "plus_assign it n = it\<lparr>m_it := for_each (cursor_add n) (m_it it)\<rparr>"

definition minus_assign ::
  "('c, 'v) xfunction_iterator \<Rightarrow> int \<Rightarrow> ('c, 'v) xfunction_iterator" where
  "minus_assign it n = it\<lparr>m_it := for_each (cursor_sub n) (m_it it)\<rparr>"

definition tuple_max_diff :: "('c, 'v) cursor list \<Rightarrow> ('c, 'v) cursor list \<Rightarrow> int" where
  "tuple_max_diff lhs rhs =
     (let diff = map (\<lambda>(l, r). cursor_minus l r) (zip lhs rhs)
      in accumulate (\<lambda>n v. max n v) 0 diff)"

definition difference ::
  "('c, 'v) xfunction_iterator \<Rightarrow> ('c, 'v) xfunction_iterator \<Rightarrow> int" where
  "difference it rhs = tuple_max_diff (m_it it) (m_it rhs)"

definition deref_impl :: "('c, 'v) xfunction_iterator \<Rightarrow> 'v" where
  "deref_impl it = m_f (p_f it) (map cursor_deref (m_it it))"

definition dereference :: "('c, 'v) xfunction_iterator \<Rightarrow> 'v" where
  "dereference it = deref_impl it"

text \<open>
  \<open>equal\<close> and \<open>less_than\<close>. \<open>temp\<close> and \<open>index\<close> are computed from the tuple type
  \<open>data_type\<close>, which the two iterators share. \<open>std::get<index>\<close> needs a tuple with more
  than \<open>index\<close> elements: a node has at least one operand.
\<close>

definition reference_index :: "('c, 'v) cursor list \<Rightarrow> nat" where
  "reference_index data =
     (let temp = find_if is_not_xdummy_iterator data
      in if temp = length data then 0 else temp)"

definition equal :: "('c, 'v) xfunction_iterator \<Rightarrow> ('c, 'v) xfunction_iterator \<Rightarrow> bool" where
  "equal it rhs =
     (let index = reference_index (m_it it)
      in cursor_eq (m_it it ! index) (m_it rhs ! index))"

definition less_than ::
  "('c, 'v) xfunction_iterator \<Rightarrow> ('c, 'v) xfunction_iterator \<Rightarrow> bool" where
  "less_than it rhs =
     (let index = reference_index (m_it it)
      in cursor_lt (m_it it ! index) (m_it rhs ! index))"

text \<open>
  Two flat iterators of one node have the same tuple type: cursor for cursor, both are
  genuine or both are placeholders.
\<close>

definition same_data_type :: "('c, 'v) cursor list \<Rightarrow> ('c, 'v) cursor list \<Rightarrow> bool" where
  "same_data_type lhs rhs =
     (map is_not_xdummy_iterator lhs = map is_not_xdummy_iterator rhs)"

section \<open>Batch capability and the batch step\<close>

text \<open>
  The xsimd traits the header consults, over a type \<open>'t\<close> of C++ types: \<open>xsimd::simd_type<V>\<close>
  (which is \<open>V\<close> itself when \<open>V\<close> has no batch type), \<open>xsimd::is_batch_bool\<close> and
  \<open>xsimd::is_batch_complex\<close>. They belong to another library and are parameters.
\<close>

record 't xsimd =
  simd_type :: "'t \<Rightarrow> 't"
  is_batch_bool :: "'t \<Rightarrow> bool"
  is_batch_complex :: "'t \<Rightarrow> bool"

text \<open>
  An operand type, as far as the metafunctions look at it: its \<open>value_type\<close> and, for a
  type other than an \<open>xfunction\<close>, the value of \<open>has_simd_interface\<close> for it; for
  \<open>xfunction<F, CT...>\<close> its \<open>value_type\<close>, the set of \<open>B\<close> for which \<open>F\<close> has a member
  template \<open>simd_apply<B>\<close> whose address can be taken, and the operand types.
\<close>

datatype 't xtype =
    Operand_type 't bool
  | Xfunction_type 't "'t \<Rightarrow> bool" "'t xtype list"

fun xvalue_type :: "'t xtype \<Rightarrow> 't" where
  "xvalue_type (Operand_type V b) = V"
| "xvalue_type (Xfunction_type V F CT) = V"

text \<open>\<open>xtl::conjunction<B...>\<close>, and \<open>detail::has_simd_type<V>\<close>.\<close>

fun conjunction :: "bool list \<Rightarrow> bool" where
  "conjunction [] = True"
| "conjunction (b # bs) = (b \<and> conjunction bs)"

definition has_simd_type :: "'t xsimd \<Rightarrow> 't \<Rightarrow> bool" where
  "has_simd_type X V = (V \<noteq> simd_type X V)"

text \<open>
  \<open>detail::xsimd_meta_getter<V, F, CT...>\<close>: \<open>simd_arguments_exist\<close>, \<open>simd_value_type\<close>
  (\<open>None\<close> is \<open>make_invalid_type<>\<close>) and \<open>use_xsimd\<close>, which is the node's
  \<open>has_simd_interface\<close>.
\<close>

definition simd_arguments_exist :: "'t xsimd \<Rightarrow> 't \<Rightarrow> 't xtype list \<Rightarrow> bool" where
  "simd_arguments_exist X V CT =
     conjunction (has_simd_type X V # map (\<lambda>ct. has_simd_type X (xvalue_type ct)) CT)"

definition simd_value_type :: "'t xsimd \<Rightarrow> 't \<Rightarrow> 't xtype list \<Rightarrow> 't option" where
  "simd_value_type X V CT =
     (if simd_arguments_exist X V CT then Some (simd_type X V) else None)"

fun has_simd_interface :: "'t xsimd \<Rightarrow> 't xtype \<Rightarrow> bool" where
  "has_simd_interface X (Operand_type V b) = b"
| "has_simd_interface X (Xfunction_type V F CT) =
     conjunction (simd_arguments_exist X V CT # F V # map (has_simd_interface X) CT)"

text \<open>\<open>detail::get_simd_type<T, simd, common_simd>::type\<close>, from \<open>T\<close>'s \<open>simd_value_type\<close>.\<close>

definition get_simd_type :: "'t xsimd \<Rightarrow> 't \<Rightarrow> 't \<Rightarrow> 't \<Rightarrow> 't" where
  "get_simd_type X T_simd_value_type simd common_simd =
     (let is_arg_bool = is_batch_bool X T_simd_value_type;
          is_res_bool = is_batch_bool X simd;
          is_arg_cplx = is_batch_complex X T_simd_value_type
      in if is_res_bool then common_simd
         else if is_arg_bool \<or> is_arg_cplx then T_simd_value_type else simd)"

text \<open>
  \<open>xfunction_stepper<F, CT...>\<close>, as far as \<open>step_simd\<close> uses it: the functor's
  \<open>simd_apply\<close> on the list of one batch per operand, the operands' \<open>simd_value_type\<close>s in
  tuple order, the node's \<open>simd_argument_type\<close>, and the tuple \<open>m_st\<close> of sub-steppers. A
  sub-stepper is its state with its member template \<open>step_simd<T>()\<close>, which returns a
  batch and leaves the sub-stepper advanced.
\<close>

record ('t, 's, 'b) substepper =
  st_state :: 's
  st_step_simd :: "'t \<Rightarrow> 's \<Rightarrow> 'b \<times> 's"

record ('t, 's, 'b) xfunction_stepper =
  simd_apply :: "'b list \<Rightarrow> 'b"
  operand_simd_value_type :: "'t list"
  simd_argument_type :: 't
  m_st :: "('t, 's, 'b) substepper list"

definition substepper_step_simd ::
  "'t \<Rightarrow> ('t, 's, 'b) substepper \<Rightarrow> 'b \<times> ('t, 's, 'b) substepper" where
  "substepper_step_simd T st =
     (case st_step_simd st T (st_state st) of (b, s') \<Rightarrow> (b, st\<lparr>st_state := s'\<rparr>))"

definition step_simd_impl ::
  "'t xsimd \<Rightarrow> ('t, 's, 'b) xfunction_stepper \<Rightarrow> 't \<Rightarrow> 'b \<times> ('t, 's, 'b) xfunction_stepper" where
  "step_simd_impl X stepper ST =
     (let rs = map (\<lambda>(T, st).
                  substepper_step_simd
                    (get_simd_type X T ST (simd_argument_type stepper)) st)
                (zip (operand_simd_value_type stepper) (m_st stepper))
      in (simd_apply stepper (map fst rs), stepper\<lparr>m_st := map snd rs\<rparr>))"

definition step_simd ::
  "'t xsimd \<Rightarrow> ('t, 's, 'b) xfunction_stepper \<Rightarrow> 't \<Rightarrow> 'b \<times> ('t, 's, 'b) xfunction_stepper" where
  "step_simd X stepper ST = step_simd_impl X stepper ST"

section \<open>Concrete operands\<close>

text \<open>
  Modelled from the spec: a stored container as an operand (the container classes are not
  part of the sources at hand), for the examples below. Broadcasting aligns shapes from
  the trailing dimension; an output extent still 0, as \<open>compute_cached_shape\<close> fills it,
  takes the operand's extent; an extent of 1 is stretched to a larger one, and the
  broadcast is trivial when nothing was stretched and the ranks agree. An operand that
  does not fit the output is reported by the container and is not modelled: the output
  extent is kept. Element access drops the leading indices beyond the container's rank,
  reads a stretched dimension at 0, and addresses the data in row-major order; reading
  beyond the data is undefined in the source and unspecified here.
\<close>

fun broadcast_dims :: "nat list \<Rightarrow> nat list \<Rightarrow> nat list \<times> bool" where
  "broadcast_dims [] out = (out, True)"
| "broadcast_dims (i # input) [] = ([], False)"
| "broadcast_dims (i # input) (n # out) =
     (case broadcast_dims input out of
        (out', t) \<Rightarrow>
          if n = 0 then (i # out', t)
          else if n = 1 then (i # out', t \<and> i = 1)
          else (n # out', t \<and> i \<noteq> 1))"

definition container_broadcast_shape :: "nat list \<Rightarrow> nat list \<Rightarrow> nat list \<times> bool" where
  "container_broadcast_shape sh out =
     (case broadcast_dims (rev sh) (rev out) of
        (r, t) \<Rightarrow> (rev r, t \<and> length sh = length out))"

definition row_major_offset :: "nat list \<Rightarrow> nat list \<Rightarrow> nat" where
  "row_major_offset sh args =
     foldl (\<lambda>k (n, i). k * n + (if n = 1 then 0 else i)) 0 (zip sh args)"

definition xcontainer :: "nat list \<Rightarrow> 'v list \<Rightarrow> 'v xexpression" where
  "xcontainer sh data =
     \<lparr>e_dimension = length sh,
      e_broadcast_shape = container_broadcast_shape sh,
      e_access = (\<lambda>args. data ! row_major_offset sh (drop (length args - length sh) args)),
      e_data_element = (\<lambda>i. data ! i)\<rparr>"

text \<open>
  Modelled from the spec: the storage iterator of a stored container, a random-access
  cursor over the container's data in storage order, given by its position.
\<close>

definition container_iterator :: "'v list \<Rightarrow> (int, 'v) storage_iterator" where
  "container_iterator data =
     \<lparr>it_inc = (\<lambda>p. p + 1), it_dec = (\<lambda>p. p - 1),
      it_add = (\<lambda>n p. p + n), it_sub = (\<lambda>n p. p - n),
      it_minus = (\<lambda>p q. p - q), it_deref = (\<lambda>p. data ! nat p),
      it_eq = (\<lambda>p q. p = q), it_lt = (\<lambda>p q. p < q)\<rparr>"

text \<open>
  The spec's scenario: operand A of shape [2,3] with the row-major values 0..5, operand B
  of shape [3] with the values 10, 20, 30, and addition. \<open>b_plus_a\<close> has the operands in
  the other order, \<open>a_plus_scalar\<close> and \<open>b_plus_scalar\<close> add the scalar 100 to A and
  to B, \<open>scalars\<close> adds two scalars. \<open>a_plus_b_filled\<close> is \<open>a_plus_b\<close> after its cache was filled.
\<close>

definition operand_a :: "int operand" where
  "operand_a = XExpr (xcontainer [2, 3] [0, 1, 2, 3, 4, 5])"

definition operand_b :: "int operand" where
  "operand_b = XExpr (xcontainer [3] [10, 20, 30])"

definition a_plus_b :: "int xfunction" where
  "a_plus_b = xfunction_dynamic sum_list [operand_a, operand_b] False"

definition b_plus_a :: "int xfunction" where
  "b_plus_a = xfunction_dynamic sum_list [operand_b, operand_a] False"

definition a_plus_b_filled :: "int xfunction" where
  "a_plus_b_filled =
     a_plus_b\<lparr>m_cache := \<lparr>shape = [2, 3], is_trivial = False, is_initialized = True\<rparr>,
              calls := [0, 1]\<rparr>"

definition a_plus_scalar :: "int xfunction" where
  "a_plus_scalar = xfunction_dynamic sum_list [operand_a, XScalar 100] False"

definition b_plus_scalar :: "int xfunction" where
  "b_plus_scalar = xfunction_dynamic sum_list [operand_b, XScalar 100] False"

definition scalars :: "int xfunction" where
  "scalars = xfunction_dynamic sum_list [XScalar 3, XScalar 4] False"

definition flat_at :: "int \<Rightarrow> (int, int) xfunction_iterator" where
  "flat_at p =
     \<lparr>p_f = a_plus_scalar,
      m_it = [Genuine (container_iterator [0, 1, 2, 3, 4, 5]) p, Placeholder 100]\<rparr>"

definition single_at :: "int \<Rightarrow> (int, int) xfunction_iterator" where
  "single_at p =
     \<lparr>p_f = xfunction_dynamic sum_list [operand_a] False,
      m_it = [Genuine (container_iterator [0, 1, 2, 3, 4, 5]) p]\<rparr>"

definition scalar_first_at :: "int \<Rightarrow> (int, int) xfunction_iterator" where
  "scalar_first_at p =
     \<lparr>p_f = xfunction_dynamic sum_list [XScalar 100, operand_a] False,
      m_it = [Placeholder 100, Genuine (container_iterator [0, 1, 2, 3, 4, 5]) p]\<rparr>"

definition scalars_it :: "(int, int) xfunction_iterator" where
  "scalars_it = \<lparr>p_f = scalars, m_it = [Placeholder 3, Placeholder 4]\<rparr>"

text \<open>
  Example types for the batch path: three scalar types, of which \<open>Double\<close> and \<open>Bool\<close>
  have batch types and \<open>String\<close> has none, \<open>Complex\<close> with its batch, and the batch types.
\<close>

datatype cpp_type =
  Double | Bool | Complex | String | Batch_double | Batch_bool | Batch_complex

definition example_xsimd :: "cpp_type xsimd" where
  "example_xsimd =
     \<lparr>simd_type = (\<lambda>t. case t of Double \<Rightarrow> Batch_double | Bool \<Rightarrow> Batch_bool
                            | Complex \<Rightarrow> Batch_complex | _ \<Rightarrow> t),
      is_batch_bool = (\<lambda>t. t = Batch_bool),
      is_batch_complex = (\<lambda>t. t = Batch_complex)\<rparr>"

definition plus_functor :: "cpp_type \<Rightarrow> bool" where
  "plus_functor B = (B = Double \<or> B = Complex)"

definition inner_type :: "cpp_type xtype" where
  "inner_type =
     Xfunction_type Double plus_functor [Operand_type Double True, Operand_type Double True]"

definition outer_type :: "cpp_type xtype" where
  "outer_type = Xfunction_type Double plus_functor [inner_type, Operand_type Double True]"

definition outer_type_no_batch :: "cpp_type xtype" where
  "outer_type_no_batch =
     Xfunction_type Double plus_functor
       [Xfunction_type Double plus_functor
          [Operand_type Double True, Operand_type Double False],
        Operand_type Double True]"

text \<open>
  A stepper over two operands whose sub-steppers count the batches they have loaded and
  return the batch type asked for with the count; \<open>simd_apply\<close> returns what it is given.
\<close>

definition counting_substepper :: "nat \<Rightarrow> (cpp_type, nat, (cpp_type \<times> nat) list) substepper" where
  "counting_substepper k = \<lparr>st_state = k, st_step_simd = (\<lambda>T s. ([(T, s)], Suc s))\<rparr>"

definition example_stepper ::
  "(cpp_type, nat, (cpp_type \<times> nat) list) xfunction_stepper" where
  "example_stepper =
     \<lparr>simd_apply = concat,
      operand_simd_value_type = [Batch_bool, Batch_double],
      simd_argument_type = Batch_double,
      m_st = [counting_substepper 0, counting_substepper 7]\<rparr>"

section \<open>Evaluating the examples\<close>

text \<open>
  The defining equations the simplifier needs to run the member functions on the concrete
  nodes, iterators, types and steppers.
\<close>

lemmas example_defs =
  a_plus_b_def b_plus_a_def a_plus_b_filled_def a_plus_scalar_def b_plus_scalar_def scalars_def
  operand_a_def operand_b_def xfunction_dynamic_def xfunction_cache_dynamic_def
  xcontainer_def container_broadcast_shape_def row_major_offset_def

lemmas node_eval =
  example_defs xfunction_shape_def compute_cached_shape_def broadcast_shape_def
  compute_dimension_def make_sequence_def Let_def xfunction_size_def compute_size_def
  call_operator_def access_impl_def xtensor_try_def xtensor_check_dimension_def
  check_index_def check_dimension_def
  dimension_def std_copy_def

lemmas iterator_eval =
  flat_at_def single_at_def scalar_first_at_def scalars_it_def container_iterator_def
  increment_def decrement_def plus_assign_def minus_assign_def for_each_def
  difference_def tuple_max_diff_def dereference_def deref_impl_def
  equal_def less_than_def reference_index_def same_data_type_def

lemmas type_eval =
  outer_type_def inner_type_def outer_type_no_batch_def plus_functor_def example_xsimd_def
  has_simd_type_def simd_arguments_exist_def simd_value_type_def

lemmas stepper_eval =
  example_stepper_def counting_substepper_def example_xsimd_def

lemma spec_scenario:
  "serve_all True [Shape, Access [0, 0], Access [0, 1], Access [1, 2]] a_plus_b =
     Some ([Shape_ref [2, 3], Element (Inr 10), Element (Inr 21), Element (Inr 35)],
           a_plus_b_filled) \<and>
   is_trivial (m_cache a_plus_b_filled) = False"
  by (simp add: node_eval)

section \<open>Broadcasting the shape\<close>

text \<open>
  The fold of \<open>broadcast_shape\<close> over the operands calls every operand, in order, on the
  shape the previous operand left, and conjoins the results.
\<close>

lemma shape_after_Cons:
  "shape_after (e # es) out = shape_after es (fst (operand_broadcast_shape e out))"
  by (simp add: shape_after_def)

lemma operand_result_0: "operand_result (e # es) out 0 = snd (operand_broadcast_shape e out)"
  by (simp add: operand_result_def shape_after_def)

lemma operand_result_Suc:
  "operand_result (e # es) out (Suc i) =
     operand_result es (fst (operand_broadcast_shape e out)) i"
  by (simp add: operand_result_def shape_after_Cons)

lemma list_all_operand_result_Cons:
  "list_all (operand_result (e # es) out) [0..<Suc (length es)] =
     (snd (operand_broadcast_shape e out) \<and>
      list_all (operand_result es (fst (operand_broadcast_shape e out))) [0..<length es])"
proof -
  have "[0..<Suc (length es)] = 0 # map Suc [0..<length es]"
    by (simp add: upt_conv_Cons map_Suc_upt del: upt_Suc)
  then have "list_all (operand_result (e # es) out) [0..<Suc (length es)] =
     (operand_result (e # es) out 0 \<and>
      list_all (\<lambda>i. operand_result (e # es) out (Suc i)) [0..<length es])"
    by (simp only: list.pred_inject list.pred_map o_def)
  then show ?thesis
    by (simp only: operand_result_0 operand_result_Suc)
qed

lemma accumulate_broadcast_shape_func:
  "accumulate broadcast_shape_func (b, out, trace) (enumerate k es) =
     (list_all (operand_result es out) [0..<length es] \<and> b,
      shape_after es out,
      trace @ [k..<k + length es])"
proof (induction es arbitrary: b out trace k)
  case Nil
  show ?case by (simp add: shape_after_def)
next
  case (Cons e es)
  obtain out1 r where e: "operand_broadcast_shape e out = (out1, r)"
    by (cases "operand_broadcast_shape e out")
  have "accumulate broadcast_shape_func (b, out, trace) (enumerate k (e # es)) =
        accumulate broadcast_shape_func (r \<and> b, out1, trace @ [k]) (enumerate (Suc k) es)"
    by (simp add: e)
  also have "\<dots> = (list_all (operand_result es out1) [0..<length es] \<and> r \<and> b,
                   shape_after es out1, (trace @ [k]) @ [Suc k..<Suc k + length es])"
    by (rule Cons.IH)
  finally show ?case
    using list_all_operand_result_Cons [of e es out]
    by (auto simp add: e shape_after_Cons upt_conv_Cons simp del: upt_Suc)
qed

text \<open>
  C1. For every node and every output shape \<open>out\<close>: when \<open>reuse_cache\<close> is true and the
  cache is initialized, \<open>broadcast_shape(out, reuse_cache)\<close> copies the cached shape into
  \<open>out\<close> (as \<open>std::copy\<close> does, over the leading entries of \<open>out\<close>) and returns the
  cached triviality flag, and the node with its call log is as before: no operand was
  invoked. In every other case it leaves in \<open>out\<close> the shape the operands produce one
  after the other, returns the conjunction of the results of all the operands, and the
  call log grows by the positions \<open>0, 1, ..., N - 1\<close>: every operand was invoked once, in
  operand order, whatever the earlier operands returned.
\<close>

theorem broadcast_shape_spec:
  "(reuse_cache \<and> is_initialized (m_cache node) \<longrightarrow>
      broadcast_shape node out reuse_cache =
        (case std_copy (shape (m_cache node)) out of
           None \<Rightarrow> None
         | Some out' \<Rightarrow> Some ((out', is_trivial (m_cache node)), node))) \<and>
   (\<not> (reuse_cache \<and> is_initialized (m_cache node)) \<longrightarrow>
      broadcast_shape node out reuse_cache =
        Some ((shape_after (m_e node) out,
               \<forall>i < length (m_e node). operand_result (m_e node) out i),
              node\<lparr>calls := calls node @ [0..<length (m_e node)]\<rparr>))"
  by (auto simp add: broadcast_shape_def accumulate_broadcast_shape_func list_all_iff)

text \<open>
  On the scenario: the filled node answers from its cache; the node with the operands in
  the other order is recomputed, and its second operand is invoked although the first
  one returned false.
\<close>

theorem broadcast_shape_spec_witness:
  "(True \<and> is_initialized (m_cache a_plus_b_filled)) \<and>
   broadcast_shape a_plus_b_filled [0, 0] True = Some (([2, 3], False), a_plus_b_filled) \<and>
   \<not> (False \<and> is_initialized (m_cache b_plus_a)) \<and>
   broadcast_shape b_plus_a [0, 0] False = Some (([2, 3], False), b_plus_a\<lparr>calls := [0, 1]\<rparr>) \<and>
   \<not> operand_result (m_e b_plus_a) [0, 0] 0 \<and> operand_result (m_e b_plus_a) [0, 0] 1"
proof -
  have r: "\<not> operand_result (m_e b_plus_a) [0, 0] 0" "operand_result (m_e b_plus_a) [0, 0] 1"
    by (simp_all add: example_defs operand_result_def shape_after_def)
  have s: "shape_after (m_e b_plus_a) [0, 0] = [2, 3]"
    by (simp add: example_defs shape_after_def)
  have "broadcast_shape a_plus_b_filled [0, 0] True = Some (([2, 3], False), a_plus_b_filled)"
    using broadcast_shape_spec [of True a_plus_b_filled "[0, 0]"]
    by (simp add: example_defs std_copy_def)
  moreover have
    "broadcast_shape b_plus_a [0, 0] False = Some (([2, 3], False), b_plus_a\<lparr>calls := [0, 1]\<rparr>)"
    using broadcast_shape_spec [of False b_plus_a "[0, 0]"] r s
    by (auto simp add: example_defs)
  ultimately show ?thesis using r by (simp add: example_defs)
qed

section \<open>The shape cache: dimension, shape, size, element access\<close>

lemma accumulate_max:
  "accumulate (\<lambda>d e. max d (f e)) d0 es = Max (set (d0 # map f es))"
proof (induction es arbitrary: d0)
  case Nil
  show ?case by simp
next
  case (Cons e es)
  have "Max (insert (max d0 (f e)) (f ` set es)) = Max (insert d0 (insert (f e) (f ` set es)))"
    by (cases "es = []") (simp_all add: max.assoc)
  with Cons.IH [of "max d0 (f e)"] show ?case by simp
qed

lemma compute_dimension_Max:
  "compute_dimension node = Max (set (0 # map operand_dimension (m_e node)))"
  unfolding compute_dimension_def by (rule accumulate_max)

text \<open>
  C2, as amended. \<open>dimension()\<close> never fills or changes the shape cache: it returns the
  length of the cached shape when the cache is initialized and the maximum of the
  operands' dimensions (0 for no operand) when it is not, and the node is as before. For
  a node of fixed shape it returns the length of the compile-time shape.
\<close>

theorem dimension_reads_cache:
  "serve validation Dimension node =
     Some (Number (if is_initialized (m_cache node) then length (shape (m_cache node))
                   else Max (set (0 # map operand_dimension (m_e node)))), node) \<and>
   dimension (xfunction_fixed f e N is_shape_trivial) = length N"
  by (simp add: dimension_def compute_dimension_Max xfunction_fixed_def
      xfunction_cache_fixed_def)

theorem dimension_reads_cache_witness:
  "serve True Dimension a_plus_b = Some (Number 2, a_plus_b) \<and>
   serve True Dimension a_plus_b_filled = Some (Number 2, a_plus_b_filled) \<and>
   dimension (xfunction_fixed sum_list [operand_a, operand_b] [2, 3] False) = 2"
  using dimension_reads_cache [of True a_plus_b sum_list "[operand_a, operand_b]" "[2, 3]" False]
    dimension_reads_cache [of True a_plus_b_filled sum_list "[operand_a, operand_b]" "[2, 3]"
      False]
  by (simp add: node_eval xfunction_fixed_def xfunction_cache_fixed_def)

text \<open>
  C2 as stated fails: after the first call of \<open>dimension()\<close> on the dynamically-shaped
  node of the scenario, which returns 2, the cache is still not initialized.
\<close>

theorem dimension_fills_cache_counterexample:
  "serve True Dimension a_plus_b = Some (Number 2, a_plus_b) \<and>
   \<not> is_initialized (m_cache a_plus_b)"
  by (simp add: node_eval)

lemma broadcast_shape_recompute:
  "broadcast_shape node out False =
     Some ((shape_after (m_e node) out,
            list_all (operand_result (m_e node) out) [0..<length (m_e node)]),
           node\<lparr>calls := calls node @ [0..<length (m_e node)]\<rparr>)"
  by (simp add: broadcast_shape_def accumulate_broadcast_shape_func)

lemma compute_cached_shape_eq:
  "compute_cached_shape node =
     Some (node\<lparr>m_cache := \<lparr>shape = resolved_shape node, is_trivial = resolved_trivial node,
                            is_initialized = True\<rparr>,
                calls := calls node @ [0..<length (m_e node)]\<rparr>)"
  by (simp add: compute_cached_shape_def broadcast_shape_recompute Let_def
      resolved_shape_def resolved_trivial_def compute_dimension_def)

lemma xfunction_shape_cached:
  "is_fixed node \<or> is_initialized (m_cache node) \<Longrightarrow>
   xfunction_shape node = Some (shape (m_cache node), node)"
  by (auto simp add: xfunction_shape_def)

lemma xfunction_shape_fill:
  "\<not> is_fixed node \<Longrightarrow> \<not> is_initialized (m_cache node) \<Longrightarrow>
   xfunction_shape node =
     Some (resolved_shape node,
           node\<lparr>m_cache := \<lparr>shape = resolved_shape node, is_trivial = resolved_trivial node,
                            is_initialized = True\<rparr>,
                calls := calls node @ [0..<length (m_e node)]\<rparr>)"
  by (simp add: xfunction_shape_def compute_cached_shape_eq)

lemma xfunction_shape_again:
  assumes "xfunction_shape node = Some (s, node')"
  shows "xfunction_shape node' = Some (s, node')"
proof (cases "is_fixed node \<or> is_initialized (m_cache node)")
  case True
  with assms xfunction_shape_cached [of node] show ?thesis by auto
next
  case False
  with assms xfunction_shape_fill [of node] have
    "is_initialized (m_cache node')" "s = shape (m_cache node')" by auto
  then show ?thesis by (simp add: xfunction_shape_cached)
qed

lemma xfunction_shape_total: "\<exists>s node'. xfunction_shape node = Some (s, node')"
  using xfunction_shape_cached [of node] xfunction_shape_fill [of node] by blast

lemma xfunction_shape_keeps:
  assumes "xfunction_shape node = Some (s, node')"
  shows "m_e node' = m_e node" "m_f node' = m_f node"
proof -
  show "m_e node' = m_e node"
    using assms xfunction_shape_cached [of node] xfunction_shape_fill [of node]
    by (cases "is_fixed node \<or> is_initialized (m_cache node)") auto
  show "m_f node' = m_f node"
    using assms xfunction_shape_cached [of node] xfunction_shape_fill [of node]
    by (cases "is_fixed node \<or> is_initialized (m_cache node)") auto
qed

lemma xfunction_shape_resolved:
  assumes "cache_consistent node"
  shows "map_option fst (xfunction_shape node) = Some (resolved_shape node)"
proof (cases "is_initialized (m_cache node)")
  case True
  with assms xfunction_shape_cached [of node] show ?thesis
    by (simp add: cache_consistent_def)
next
  case False
  with assms have "\<not> is_fixed node" by (simp add: cache_consistent_def)
  with False xfunction_shape_fill [of node] show ?thesis by simp
qed

lemma check_both:
  "(check_index s args \<and> check_dimension s args) =
     (length args = length s \<and> (\<forall>k < length args. args ! k < s ! k))"
  by (auto simp add: check_index_def check_dimension_def list_all_length)

lemma access_impl_production:
  "access_impl False node args =
     Some (Inr (m_f node (map (\<lambda>e. operand_access e args) (m_e node))), node)"
  by (simp add: access_impl_def xtensor_try_def xtensor_check_dimension_def)

lemma access_impl_validated:
  assumes "xfunction_shape node = Some (s, node')"
  shows "access_impl True node args =
     Some (if length args = length s \<and> (\<forall>k < length args. args ! k < s ! k)
           then Inr (m_f node (map (\<lambda>e. operand_access e args) (m_e node)))
           else Inl Assertion_failure, node')"
  using assms xfunction_shape_again [OF assms] xfunction_shape_keeps [OF assms]
    check_both [of s args]
  by (auto simp add: access_impl_def xtensor_try_def xtensor_check_dimension_def)

lemma serve_initialized:
  assumes "is_initialized (m_cache node)"
  shows "\<exists>r. serve validation q node = Some (r, node) \<and>
             (\<forall>s. r = Shape_ref s \<longrightarrow> s = shape (m_cache node))"
proof -
  have sh: "xfunction_shape node = Some (shape (m_cache node), node)"
    using assms by (simp add: xfunction_shape_cached)
  show ?thesis
  proof (cases q)
    case Shape
    with sh show ?thesis by simp
  next
    case Dimension
    then show ?thesis by simp
  next
    case Size
    with sh show ?thesis by (simp add: xfunction_size_def)
  next
    case (Access args)
    show ?thesis
    proof (cases validation)
      case True
      with Access access_impl_validated [OF sh, of args] show ?thesis
        by (simp add: call_operator_def)
    next
      case False
      with Access access_impl_production [of node args] show ?thesis
        by (simp add: call_operator_def)
    qed
  qed
qed

lemma serve_all_initialized:
  assumes "is_initialized (m_cache node)"
  shows "\<exists>rs. serve_all validation qs node = Some (rs, node) \<and>
              (\<forall>s. Shape_ref s \<in> set rs \<longrightarrow> s = shape (m_cache node))"
proof (induction qs)
  case Nil
  show ?case by simp
next
  case (Cons q qs)
  from serve_initialized [OF assms, of validation q] obtain r where
    r: "serve validation q node = Some (r, node)"
       "\<forall>s. r = Shape_ref s \<longrightarrow> s = shape (m_cache node)" by blast
  from Cons.IH obtain rs where
    rs: "serve_all validation qs node = Some (rs, node)"
        "\<forall>s. Shape_ref s \<in> set rs \<longrightarrow> s = shape (m_cache node)" by blast
  from r rs show ?case by auto
qed

lemma serve_cache_consistent:
  assumes "cache_consistent node" and "serve validation q node = Some (r, node')"
  shows "cache_consistent node'"
proof (cases "is_initialized (m_cache node)")
  case True
  from serve_initialized [OF True, of validation q] assms(2) have "node' = node" by auto
  with assms(1) show ?thesis by simp
next
  case False
  with assms(1) have nf: "\<not> is_fixed node" by (simp add: cache_consistent_def)
  define filled where "filled =
    node\<lparr>m_cache := \<lparr>shape = resolved_shape node, is_trivial = resolved_trivial node,
                     is_initialized = True\<rparr>,
         calls := calls node @ [0..<length (m_e node)]\<rparr>"
  have sh: "xfunction_shape node = Some (resolved_shape node, filled)"
    using xfunction_shape_fill [OF nf False] by (simp add: filled_def)
  have cf: "cache_consistent filled"
    by (simp add: filled_def cache_consistent_def resolved_shape_def resolved_trivial_def
        compute_dimension_def)
  have "node' = node \<or> node' = filled"
  proof (cases q)
    case Shape
    with sh assms(2) show ?thesis by auto
  next
    case Dimension
    with assms(2) show ?thesis by auto
  next
    case Size
    with sh assms(2) show ?thesis by (auto simp add: xfunction_size_def)
  next
    case (Access args)
    show ?thesis
    proof (cases validation)
      case True
      with Access assms(2) access_impl_validated [OF sh, of args] show ?thesis
        by (auto simp add: call_operator_def)
    next
      case False
      with Access assms(2) access_impl_production [of node args] show ?thesis
        by (auto simp add: call_operator_def)
    qed
  qed
  with assms(1) cf show ?thesis by auto
qed

text \<open>
  C3. For a dynamically-shaped node whose cache is not initialized, \<open>shape()\<close> fills the
  cache and returns the cached sequence, every operand's \<open>broadcast_shape\<close> having been
  invoked once, in order. From then on, whatever calls of \<open>shape()\<close>, \<open>dimension()\<close>,
  \<open>size()\<close> and element access follow, in any number and order, the node is left as it
  is, cache and call log: no operand's \<open>broadcast_shape\<close> is invoked again, and every
  call of \<open>shape()\<close> returns that same cached sequence.
\<close>

theorem shape_memoized:
  assumes "\<not> is_fixed node" and "\<not> is_initialized (m_cache node)"
  shows "\<exists>node1. xfunction_shape node = Some (shape (m_cache node1), node1) \<and>
           is_initialized (m_cache node1) \<and>
           calls node1 = calls node @ [0..<length (m_e node)] \<and>
           (\<forall>validation qs. \<exists>rs.
              serve_all validation qs node1 = Some (rs, node1) \<and>
              (\<forall>s. Shape_ref s \<in> set rs \<longrightarrow> s = shape (m_cache node1)))"
proof -
  define node1 where "node1 =
    node\<lparr>m_cache := \<lparr>shape = resolved_shape node, is_trivial = resolved_trivial node,
                     is_initialized = True\<rparr>,
         calls := calls node @ [0..<length (m_e node)]\<rparr>"
  have "xfunction_shape node = Some (shape (m_cache node1), node1)"
    using xfunction_shape_fill [OF assms] by (simp add: node1_def)
  moreover have init: "is_initialized (m_cache node1)" by (simp add: node1_def)
  moreover have "calls node1 = calls node @ [0..<length (m_e node)]" by (simp add: node1_def)
  moreover have "\<forall>validation qs. \<exists>rs.
              serve_all validation qs node1 = Some (rs, node1) \<and>
              (\<forall>s. Shape_ref s \<in> set rs \<longrightarrow> s = shape (m_cache node1))"
    using serve_all_initialized [OF init] by blast
  ultimately show ?thesis by blast
qed

theorem shape_memoized_witness:
  "\<not> is_fixed a_plus_b \<and> \<not> is_initialized (m_cache a_plus_b) \<and>
   xfunction_shape a_plus_b = Some ([2, 3], a_plus_b_filled) \<and>
   is_initialized (m_cache a_plus_b_filled) \<and>
   calls a_plus_b = [] \<and> calls a_plus_b_filled = [0, 1] \<and>
   serve_all True [Shape, Size, Access [1, 2], Dimension, Shape] a_plus_b_filled =
     Some ([Shape_ref [2, 3], Number 6, Element (Inr 35), Number 2, Shape_ref [2, 3]],
           a_plus_b_filled)"
proof -
  have h: "\<not> is_fixed a_plus_b" "\<not> is_initialized (m_cache a_plus_b)"
    by (simp_all add: example_defs)
  have sh: "xfunction_shape a_plus_b = Some ([2, 3], a_plus_b_filled)"
    by (simp add: node_eval)
  from shape_memoized [OF h] sh
  have "\<forall>validation qs. \<exists>rs.
          serve_all validation qs a_plus_b_filled = Some (rs, a_plus_b_filled) \<and>
          (\<forall>s. Shape_ref s \<in> set rs \<longrightarrow> s = shape (m_cache a_plus_b_filled))"
    by auto
  then obtain rs where rs:
    "serve_all True [Shape, Size, Access [1, 2], Dimension, Shape] a_plus_b_filled =
       Some (rs, a_plus_b_filled)"
    by blast
  moreover have "map_option fst
      (serve_all True [Shape, Size, Access [1, 2], Dimension, Shape] a_plus_b_filled) =
     Some [Shape_ref [2, 3], Number 6, Element (Inr 35), Number 2, Shape_ref [2, 3]]"
    by (simp add: node_eval)
  ultimately have
    "serve_all True [Shape, Size, Access [1, 2], Dimension, Shape] a_plus_b_filled =
     Some ([Shape_ref [2, 3], Number 6, Element (Inr 35), Number 2, Shape_ref [2, 3]],
           a_plus_b_filled)"
    by simp
  with h sh show ?thesis by (simp add: example_defs)
qed

text \<open>
  C4. Let \<open>s\<close> be the shape \<open>shape()\<close> returns for the node. With validation enabled,
  checked access signals an assertion failure when the number of indices differs from
  the rank or an index is not below its extent; when the indices are within \<open>s\<close> it
  returns the functor applied to the elements that the operands return for the very same
  indices, each operand adjusting them to its own shape. With validation disabled
  nothing is checked and the node is not touched: the result is that same value.
\<close>

theorem checked_access:
  assumes "xfunction_shape node = Some (s, node')"
  shows "(validation \<and> \<not> (length args = length s \<and> (\<forall>k < length args. args ! k < s ! k)) \<longrightarrow>
            call_operator validation node args = Some (Inl Assertion_failure, node')) \<and>
         (validation \<and> length args = length s \<and> (\<forall>k < length args. args ! k < s ! k) \<longrightarrow>
            call_operator validation node args =
              Some (Inr (m_f node (map (\<lambda>e. operand_access e args) (m_e node))), node')) \<and>
         (\<not> validation \<longrightarrow>
            call_operator validation node args =
              Some (Inr (m_f node (map (\<lambda>e. operand_access e args) (m_e node))), node))"
  using access_impl_validated [OF assms, of args] access_impl_production [of node args]
  by (auto simp add: call_operator_def)

text \<open>
  On the scenario, A of shape [2,3] and B of shape [3]: index (2,0) is out of range, one
  index is too few, and the element at (1,2) is 5 + 30.
\<close>

theorem checked_access_witness:
  "xfunction_shape a_plus_b = Some ([2, 3], a_plus_b_filled) \<and>
   call_operator True a_plus_b [2, 0] = Some (Inl Assertion_failure, a_plus_b_filled) \<and>
   call_operator True a_plus_b [1] = Some (Inl Assertion_failure, a_plus_b_filled) \<and>
   call_operator True a_plus_b [1, 2] = Some (Inr 35, a_plus_b_filled) \<and>
   call_operator False a_plus_b [1, 2] = Some (Inr 35, a_plus_b)"
proof -
  have sh: "xfunction_shape a_plus_b = Some ([2, 3], a_plus_b_filled)"
    by (simp add: node_eval)
  have "\<not> (\<forall>k < length [2, 0 :: nat]. [2, 0] ! k < [2, 3 :: nat] ! k)"
    by (simp add: All_less_Suc)
  then have "call_operator True a_plus_b [2, 0] = Some (Inl Assertion_failure, a_plus_b_filled)"
    using checked_access [OF sh, of True "[2, 0]"] by simp
  moreover have "call_operator True a_plus_b [1] = Some (Inl Assertion_failure, a_plus_b_filled)"
    using checked_access [OF sh, of True "[1]"] by simp
  moreover have "\<forall>k < length [1, 2 :: nat]. [1, 2] ! k < [2, 3 :: nat] ! k"
    by (simp add: All_less_Suc)
  then have "call_operator True a_plus_b [1, 2] = Some (Inr 35, a_plus_b_filled)"
    using checked_access [OF sh, of True "[1, 2]"] by (simp add: example_defs)
  moreover have "call_operator False a_plus_b [1, 2] = Some (Inr 35, a_plus_b)"
    using checked_access [OF sh, of False "[1, 2]"] by (simp add: example_defs)
  ultimately show ?thesis using sh by simp
qed

text \<open>
  C10. \<open>node[i]\<close> is \<open>node(i)\<close>: a checked access with the single index \<open>i\<close>, validated
  against the node's shape \<open>s\<close> (it fails under validation unless the rank is 1 and
  \<open>i\<close> is below the extent), whose value is the functor on each operand's element at the
  index \<open>i\<close>, not at the storage position \<open>i\<close> as for \<open>data_element(i)\<close>.
\<close>

theorem subscript_checked:
  assumes "xfunction_shape node = Some (s, node')"
  shows "subscript validation node i = call_operator validation node [i] \<and>
         (validation \<and> \<not> (length s = 1 \<and> i < s ! 0) \<longrightarrow>
            subscript validation node i = Some (Inl Assertion_failure, node')) \<and>
         (validation \<and> length s = 1 \<and> i < s ! 0 \<longrightarrow>
            subscript validation node i =
              Some (Inr (m_f node (map (\<lambda>e. operand_access e [i]) (m_e node))), node')) \<and>
         (\<not> validation \<longrightarrow>
            subscript validation node i =
              Some (Inr (m_f node (map (\<lambda>e. operand_access e [i]) (m_e node))), node))"
  using access_impl_validated [OF assms, of "[i]"] access_impl_production [of node "[i]"]
  by (auto simp add: subscript_def call_operator_def)

text \<open>
  On the one-dimensional node B + 100, and on A + 100 of rank 2, where \<open>node[4]\<close> fails
  the validation while \<open>data_element(4)\<close> is the fifth stored value plus 100.
\<close>

theorem subscript_checked_witness:
  "xfunction_shape b_plus_scalar =
     Some ([3], b_plus_scalar\<lparr>m_cache := \<lparr>shape = [3], is_trivial = True,
                                            is_initialized = True\<rparr>, calls := [0, 1]\<rparr>) \<and>
   map_option fst (subscript True b_plus_scalar 2) = Some (Inr 130) \<and>
   map_option fst (subscript True b_plus_scalar 3) = Some (Inl Assertion_failure) \<and>
   map_option fst (subscript False b_plus_scalar 2) = Some (Inr 130) \<and>
   map_option fst (xfunction_shape a_plus_scalar) = Some [2, 3] \<and>
   map_option fst (subscript True a_plus_scalar 4) = Some (Inl Assertion_failure) \<and>
   data_element a_plus_scalar 4 = 104"
proof -
  have sh: "xfunction_shape b_plus_scalar =
     Some ([3], b_plus_scalar\<lparr>m_cache := \<lparr>shape = [3], is_trivial = True,
                                            is_initialized = True\<rparr>, calls := [0, 1]\<rparr>)"
    by (simp add: node_eval)
  have sh2: "xfunction_shape a_plus_scalar =
     Some ([2, 3], a_plus_scalar\<lparr>m_cache := \<lparr>shape = [2, 3], is_trivial = True,
                                            is_initialized = True\<rparr>, calls := [0, 1]\<rparr>)"
    by (simp add: node_eval)
  have v: "m_f b_plus_scalar (map (\<lambda>e. operand_access e [2]) (m_e b_plus_scalar)) = 130"
    by (simp add: example_defs)
  have c: "length [3 :: nat] = 1 \<and> (2 :: nat) < [3] ! 0"
    "\<not> (length [3 :: nat] = 1 \<and> (3 :: nat) < [3] ! 0)"
    "\<not> (length [2, 3 :: nat] = 1 \<and> (4 :: nat) < [2, 3] ! 0)"
    by simp_all
  from subscript_checked [OF sh, of True 2] c(1)
  have "subscript True b_plus_scalar 2 =
      Some (Inr (m_f b_plus_scalar (map (\<lambda>e. operand_access e [2]) (m_e b_plus_scalar))),
            b_plus_scalar\<lparr>m_cache := \<lparr>shape = [3], is_trivial = True,
                                        is_initialized = True\<rparr>, calls := [0, 1]\<rparr>)"
    by blast
  with v have "map_option fst (subscript True b_plus_scalar 2) = Some (Inr 130)" by simp
  moreover from subscript_checked [OF sh, of True 3] c(2)
  have "subscript True b_plus_scalar 3 =
      Some (Inl Assertion_failure,
            b_plus_scalar\<lparr>m_cache := \<lparr>shape = [3], is_trivial = True,
                                        is_initialized = True\<rparr>, calls := [0, 1]\<rparr>)"
    by blast
  then have "map_option fst (subscript True b_plus_scalar 3) = Some (Inl Assertion_failure)"
    by simp
  moreover from subscript_checked [OF sh, of False 2]
  have "subscript False b_plus_scalar 2 =
      Some (Inr (m_f b_plus_scalar (map (\<lambda>e. operand_access e [2]) (m_e b_plus_scalar))),
            b_plus_scalar)"
    by blast
  with v have "map_option fst (subscript False b_plus_scalar 2) = Some (Inr 130)" by simp
  moreover from subscript_checked [OF sh2, of True 4] c(3)
  have "subscript True a_plus_scalar 4 =
      Some (Inl Assertion_failure,
            a_plus_scalar\<lparr>m_cache := \<lparr>shape = [2, 3], is_trivial = True,
                                        is_initialized = True\<rparr>, calls := [0, 1]\<rparr>)"
    by blast
  then have "map_option fst (subscript True a_plus_scalar 4) = Some (Inl Assertion_failure)"
    by simp
  moreover have "data_element a_plus_scalar 4 = 104"
    by (simp add: data_element_def example_defs)
  ultimately show ?thesis using sh sh2 by simp
qed

section \<open>Nodes over scalars only\<close>

lemma list_all_is_xscalar: "list_all is_xscalar es = (\<exists>vs. es = map XScalar vs)"
proof (induction es)
  case Nil
  show ?case by simp
next
  case (Cons e es)
  show ?case
  proof (cases e)
    case (XScalar v)
    with Cons.IH show ?thesis by (auto simp add: map_eq_Cons_conv Cons_eq_map_conv)
  next
    case (XExpr x)
    then show ?thesis by (auto simp add: Cons_eq_map_conv)
  qed
qed

lemma shape_after_scalars: "shape_after (map XScalar vs) out = out"
  by (induction vs arbitrary: out) (simp_all add: shape_after_def)

lemma resolved_shape_scalars:
  assumes "m_e node = map XScalar vs"
  shows "resolved_shape node = []"
proof -
  have "accumulate (\<lambda>d e. max d (operand_dimension e)) 0 (map XScalar vs) = 0"
    by (induction vs) simp_all
  then have "compute_dimension node = 0"
    using assms by (simp add: compute_dimension_def)
  then show ?thesis
    using assms by (simp add: resolved_shape_def shape_after_scalars make_sequence_def)
qed

lemma xfunction_shape_scalars:
  assumes "m_e node = map XScalar vs" and "cache_consistent node"
  shows "\<exists>node'. xfunction_shape node = Some ([], node')"
proof (cases "is_initialized (m_cache node)")
  case True
  with assms have "shape (m_cache node) = []"
    by (simp add: cache_consistent_def resolved_shape_scalars)
  with True xfunction_shape_cached [of node] show ?thesis by simp
next
  case False
  with assms have "\<not> is_fixed node" by (simp add: cache_consistent_def)
  with False xfunction_shape_fill [of node] resolved_shape_scalars [OF assms(1)]
  show ?thesis by simp
qed

text \<open>
  C9. The conversion to \<open>value_type\<close> exists exactly for the nodes all of whose operands
  are \<open>xscalar\<close>s. For such a node, with the scalars' values \<open>vs\<close> and a consistent cache,
  the conversion is the checked access without indices, which returns the functor applied
  to \<open>vs\<close>; \<open>shape()\<close> is the empty sequence and \<open>size()\<close> is 1.
\<close>

theorem scalar_conversion:
  "((operator_value_type validation node \<noteq> None) = (\<exists>ws. m_e node = map XScalar ws)) \<and>
   (cache_consistent node \<and> m_e node = map XScalar vs \<longrightarrow>
      operator_value_type validation node = Some (call_operator validation node []) \<and>
      map_option fst (call_operator validation node []) = Some (Inr (m_f node vs)) \<and>
      map_option fst (xfunction_shape node) = Some [] \<and>
      map_option fst (xfunction_size node) = Some 1)"
proof (intro conjI impI)
  show "(operator_value_type validation node \<noteq> None) = (\<exists>ws. m_e node = map XScalar ws)"
    by (simp add: operator_value_type_def only_scalar_def list_all_is_xscalar)
next
  assume a: "cache_consistent node \<and> m_e node = map XScalar vs"
  then obtain node' where sh: "xfunction_shape node = Some ([], node')"
    using xfunction_shape_scalars by blast
  have vs: "map (\<lambda>e. operand_access e []) (m_e node) = vs"
    using a by (simp add: o_def)
  show "operator_value_type validation node = Some (call_operator validation node [])"
    using a by (auto simp add: operator_value_type_def only_scalar_def list_all_is_xscalar)
  show "map_option fst (call_operator validation node []) = Some (Inr (m_f node vs))"
    using access_impl_validated [OF sh, of "[]"] access_impl_production [of node "[]"] vs
    by (cases validation) (simp_all add: call_operator_def)
  show "map_option fst (xfunction_shape node) = Some []"
    using sh by simp
  show "map_option fst (xfunction_size node) = Some 1"
    using sh by (simp add: xfunction_size_def compute_size_def)
qed

theorem scalar_conversion_witness:
  "operator_value_type True scalars \<noteq> None \<and> operator_value_type True a_plus_scalar = None \<and>
   cache_consistent scalars \<and> m_e scalars = map XScalar [3, 4] \<and>
   operator_value_type True scalars = Some (call_operator True scalars []) \<and>
   map_option fst (call_operator True scalars []) = Some (Inr 7) \<and>
   map_option fst (xfunction_shape scalars) = Some [] \<and>
   map_option fst (xfunction_size scalars) = Some 1"
proof -
  have h: "cache_consistent scalars \<and> m_e scalars = map XScalar [3, 4]"
    by (simp add: example_defs cache_consistent_def)
  have f: "m_f scalars [3, 4] = 7" by (simp add: example_defs)
  have n: "\<not> (\<exists>ws. m_e a_plus_scalar = map XScalar ws)"
    by (simp add: example_defs Cons_eq_map_conv)
  from scalar_conversion [of True a_plus_scalar "[]"] n
  have "operator_value_type True a_plus_scalar = None" by simp
  moreover from scalar_conversion [of True scalars "[3, 4]"] h
  have "operator_value_type True scalars \<noteq> None"
    "operator_value_type True scalars = Some (call_operator True scalars [])"
    "map_option fst (call_operator True scalars []) = Some (Inr (m_f scalars [3, 4]))"
    "map_option fst (xfunction_shape scalars) = Some []"
    "map_option fst (xfunction_size scalars) = Some 1"
    by blast+
  ultimately show ?thesis using h f by simp
qed

section \<open>The flat iterator\<close>

lemma tuple_max_diff_Max:
  assumes "length rhs = length lhs"
  shows "tuple_max_diff lhs rhs =
     Max (insert 0 ((\<lambda>k. cursor_minus (lhs ! k) (rhs ! k)) ` {..<length lhs}))"
proof -
  have "set (map (\<lambda>(l, r). cursor_minus l r) (zip lhs rhs)) =
        (\<lambda>k. cursor_minus (lhs ! k) (rhs ! k)) ` {..<length lhs}"
    using assms by (auto simp add: set_zip image_iff)
  moreover have "tuple_max_diff lhs rhs =
    Max (set (0 # map (\<lambda>v. v) (map (\<lambda>(l, r). cursor_minus l r) (zip lhs rhs))))"
    unfolding tuple_max_diff_def Let_def by (rule accumulate_max)
  ultimately show ?thesis by simp
qed

text \<open>
  C5, as amended. Increment, decrement and the offsets by \<open>n\<close> apply the same move to
  every cursor of the tuple: a placeholder stays as it is, a genuine cursor is moved by
  its own operator. Dereferencing applies the functor to the current values of all the
  cursors. The distance between two flat iterators of one node is the maximum of 0 and
  of the distances between their cursors, operand by operand: it is the maximum over
  the operands whenever that maximum is not negative.
\<close>

theorem flat_iterator_lockstep:
  "m_it (increment it) = map cursor_inc (m_it it) \<and>
   m_it (decrement it) = map cursor_dec (m_it it) \<and>
   m_it (plus_assign it n) = map (cursor_add n) (m_it it) \<and>
   m_it (minus_assign it n) = map (cursor_sub n) (m_it it) \<and>
   (\<forall>k < length (m_it it). \<forall>v. m_it it ! k = Placeholder v \<longrightarrow>
      m_it (increment it) ! k = Placeholder v \<and> m_it (decrement it) ! k = Placeholder v \<and>
      m_it (plus_assign it n) ! k = Placeholder v \<and>
      m_it (minus_assign it n) ! k = Placeholder v) \<and>
   (\<forall>k < length (m_it it). \<forall>ops c. m_it it ! k = Genuine ops c \<longrightarrow>
      m_it (increment it) ! k = Genuine ops (it_inc ops c) \<and>
      m_it (decrement it) ! k = Genuine ops (it_dec ops c) \<and>
      m_it (plus_assign it n) ! k = Genuine ops (it_add ops n c) \<and>
      m_it (minus_assign it n) ! k = Genuine ops (it_sub ops n c)) \<and>
   dereference it = m_f (p_f it) (map cursor_deref (m_it it)) \<and>
   (length (m_it rhs) = length (m_it it) \<longrightarrow>
      difference it rhs =
        Max (insert 0 ((\<lambda>k. cursor_minus (m_it it ! k) (m_it rhs ! k)) `
                         {..<length (m_it it)})))"
  by (simp add: increment_def decrement_def plus_assign_def minus_assign_def for_each_def
      dereference_def deref_impl_def difference_def tuple_max_diff_Max)

theorem flat_iterator_lockstep_witness:
  "m_it (flat_at 0) ! 0 = Genuine (container_iterator [0, 1, 2, 3, 4, 5]) 0 \<and>
   m_it (flat_at 0) ! 1 = Placeholder 100 \<and>
   plus_assign (flat_at 0) 4 = flat_at 4 \<and> increment (flat_at 0) = flat_at 1 \<and>
   dereference (flat_at 4) = 104 \<and>
   length (m_it (flat_at 1)) = length (m_it (flat_at 4)) \<and>
   difference (flat_at 4) (flat_at 1) = 3"
proof -
  have l: "length (m_it (flat_at 1)) = length (m_it (flat_at 4))"
    by (simp add: flat_at_def)
  have "{..<length (m_it (flat_at 4))} = {0, 1}"
    by (auto simp add: flat_at_def)
  then have "difference (flat_at 4) (flat_at 1) = 3"
    using flat_iterator_lockstep [of "flat_at 4" 0 "flat_at 1"] l
    by (simp add: flat_at_def container_iterator_def)
  moreover have "dereference (flat_at 4) = 104"
    using flat_iterator_lockstep [of "flat_at 4" 0 "flat_at 1"]
    by (simp add: flat_at_def container_iterator_def a_plus_scalar_def xfunction_dynamic_def)
  moreover have "m_it (plus_assign (flat_at 0) 4) = m_it (flat_at 4)"
     "m_it (increment (flat_at 0)) = m_it (flat_at 1)"
    using flat_iterator_lockstep [of "flat_at 0" 4 "flat_at 0"]
    by (simp_all add: flat_at_def container_iterator_def)
  then have "plus_assign (flat_at 0) 4 = flat_at 4" "increment (flat_at 0) = flat_at 1"
    by (simp_all add: plus_assign_def increment_def flat_at_def)
  ultimately show ?thesis using l by (simp add: flat_at_def)
qed

text \<open>
  C5 as stated fails for the distance: for a node over the single operand A, the
  iterator at position 0 minus the iterator at position 3 is 0, while the only operand's
  cursors are at distance -3.
\<close>

theorem flat_iterator_distance_counterexample:
  "difference (single_at 0) (single_at 3) \<noteq>
     Max (set (map (\<lambda>(l, r). cursor_minus l r)
                 (zip (m_it (single_at 0)) (m_it (single_at 3)))))"
  by (simp add: iterator_eval)

lemma find_if_first:
  "k < length xs \<Longrightarrow> P (xs ! k) \<Longrightarrow> (\<forall>j < k. \<not> P (xs ! j)) \<Longrightarrow> find_if P xs = k"
proof (induction xs arbitrary: k)
  case Nil
  then show ?case by simp
next
  case (Cons x xs)
  show ?case
  proof (cases k)
    case 0
    with Cons.prems show ?thesis by simp
  next
    case (Suc k')
    with Cons.prems have "\<not> P x" by auto
    moreover from Suc Cons.prems have "find_if P xs = k'"
      by (intro Cons.IH) auto
    ultimately show ?thesis using Suc by simp
  qed
qed

lemma find_if_none: "(\<forall>x \<in> set xs. \<not> P x) \<Longrightarrow> find_if P xs = length xs"
  by (induction xs) simp_all

text \<open>
  C8. When \<open>k\<close> is the position of the first genuine cursor, \<open>equal\<close> and \<open>less_than\<close>
  are the comparison of the two cursors at position \<open>k\<close> and of nothing else. When all
  the cursors are placeholders, two iterators of the same node are equal.
\<close>

theorem flat_iterator_comparison:
  "(k < length (m_it it) \<and> is_not_xdummy_iterator (m_it it ! k) \<and>
      (\<forall>j < k. \<not> is_not_xdummy_iterator (m_it it ! j)) \<longrightarrow>
      equal it rhs = cursor_eq (m_it it ! k) (m_it rhs ! k) \<and>
      less_than it rhs = cursor_lt (m_it it ! k) (m_it rhs ! k)) \<and>
   (m_it it \<noteq> [] \<and> same_data_type (m_it it) (m_it rhs) \<and>
      (\<forall>c \<in> set (m_it it). \<not> is_not_xdummy_iterator c) \<longrightarrow>
      equal it rhs)"
proof (intro conjI impI)
  assume a: "k < length (m_it it) \<and> is_not_xdummy_iterator (m_it it ! k) \<and>
      (\<forall>j < k. \<not> is_not_xdummy_iterator (m_it it ! j))"
  then have "find_if is_not_xdummy_iterator (m_it it) = k"
    by (intro find_if_first) auto
  with a have "reference_index (m_it it) = k"
    by (simp add: reference_index_def)
  then show "equal it rhs = cursor_eq (m_it it ! k) (m_it rhs ! k)"
    "less_than it rhs = cursor_lt (m_it it ! k) (m_it rhs ! k)"
    by (simp_all add: equal_def less_than_def)
next
  assume a: "m_it it \<noteq> [] \<and> same_data_type (m_it it) (m_it rhs) \<and>
      (\<forall>c \<in> set (m_it it). \<not> is_not_xdummy_iterator c)"
  then have i: "reference_index (m_it it) = 0"
    by (simp add: reference_index_def find_if_none)
  from a obtain c cs where c: "m_it it = c # cs" by (cases "m_it it") auto
  with a obtain d ds where d: "m_it rhs = d # ds" "is_not_xdummy_iterator d = is_not_xdummy_iterator c"
    by (cases "m_it rhs") (auto simp add: same_data_type_def)
  from a c have "\<not> is_not_xdummy_iterator c" by simp
  with d have "cursor_eq c d"
    by (cases c; cases d) simp_all
  with i c d show "equal it rhs" by (simp add: equal_def)
qed

theorem flat_iterator_comparison_witness:
  "(1::nat) < length (m_it (scalar_first_at 2)) \<and>
   is_not_xdummy_iterator (m_it (scalar_first_at 2) ! 1) \<and>
   \<not> is_not_xdummy_iterator (m_it (scalar_first_at 2) ! 0) \<and>
   equal (scalar_first_at 2) (scalar_first_at 2) \<and>
   \<not> equal (scalar_first_at 2) (scalar_first_at 5) \<and>
   less_than (scalar_first_at 2) (scalar_first_at 5) \<and>
   m_it scalars_it \<noteq> [] \<and> same_data_type (m_it scalars_it) (m_it scalars_it) \<and>
   list_all (\<lambda>c. \<not> is_not_xdummy_iterator c) (m_it scalars_it) \<and>
   equal scalars_it scalars_it"
proof -
  have h: "(1::nat) < length (m_it (scalar_first_at 2)) \<and>
   is_not_xdummy_iterator (m_it (scalar_first_at 2) ! 1) \<and>
   (\<forall>j < (1::nat). \<not> is_not_xdummy_iterator (m_it (scalar_first_at 2) ! j))"
    by (simp add: scalar_first_at_def)
  have g: "m_it scalars_it \<noteq> [] \<and> same_data_type (m_it scalars_it) (m_it scalars_it) \<and>
   (\<forall>c \<in> set (m_it scalars_it). \<not> is_not_xdummy_iterator c)"
    by (simp add: scalars_it_def same_data_type_def)
  from flat_iterator_comparison [of 1 "scalar_first_at 2" "scalar_first_at 2"] h
  have "equal (scalar_first_at 2) (scalar_first_at 2)"
    by (simp add: scalar_first_at_def container_iterator_def)
  moreover from flat_iterator_comparison [of 1 "scalar_first_at 2" "scalar_first_at 5"] h
  have "\<not> equal (scalar_first_at 2) (scalar_first_at 5)"
    "less_than (scalar_first_at 2) (scalar_first_at 5)"
    by (simp_all add: scalar_first_at_def container_iterator_def)
  moreover from flat_iterator_comparison [of 0 scalars_it scalars_it] g
  have "equal scalars_it scalars_it" by blast
  ultimately show ?thesis using h g by (simp add: list_all_iff)
qed

section \<open>Batch capability\<close>

lemma conjunction_iff: "conjunction bs = (\<forall>b \<in> set bs. b)"
  by (induction bs) auto

lemma simd_arguments_exist_iff:
  "simd_arguments_exist X V CT =
     (has_simd_type X V \<and> (\<forall>ct \<in> set CT. has_simd_type X (xvalue_type ct)))"
  by (auto simp add: simd_arguments_exist_def conjunction_iff)

text \<open>
  C6. \<open>has_simd_interface\<close> of \<open>xfunction<F, CT...>\<close> with result type \<open>V\<close> holds if and only
  if \<open>V\<close> and the value type of every operand have a batch type, \<open>F\<close> has \<open>simd_apply\<close>
  for \<open>V\<close>, and every operand has the batch interface; for an operand that is itself an
  \<open>xfunction\<close> this asks the same of its result type, functor and operands. A failing
  condition gives the value false, and \<open>simd_value_type\<close> is the invalid type exactly
  when some value type has no batch type.
\<close>

theorem batch_eligibility:
  "has_simd_interface X (Xfunction_type V F CT) =
     (has_simd_type X V \<and> (\<forall>ct \<in> set CT. has_simd_type X (xvalue_type ct)) \<and> F V \<and>
      (\<forall>ct \<in> set CT. has_simd_interface X ct)) \<and>
   (Xfunction_type V' F' CT' \<in> set CT \<and> has_simd_interface X (Xfunction_type V F CT) \<longrightarrow>
      has_simd_type X V' \<and> F' V' \<and> (\<forall>ct \<in> set CT'. has_simd_interface X ct)) \<and>
   (simd_value_type X V CT = None) =
     (\<not> (has_simd_type X V \<and> (\<forall>ct \<in> set CT. has_simd_type X (xvalue_type ct))))"
proof -
  have one: "\<And>V F CT. has_simd_interface X (Xfunction_type V F CT) =
     (has_simd_type X V \<and> (\<forall>ct \<in> set CT. has_simd_type X (xvalue_type ct)) \<and> F V \<and>
      (\<forall>ct \<in> set CT. has_simd_interface X ct))"
    by (auto simp add: conjunction_iff simd_arguments_exist_iff)
  have "Xfunction_type V' F' CT' \<in> set CT \<and> has_simd_interface X (Xfunction_type V F CT) \<longrightarrow>
      has_simd_type X V' \<and> F' V' \<and> (\<forall>ct \<in> set CT'. has_simd_interface X ct)"
    using one [of V F CT] one [of V' F' CT'] by blast
  moreover have "(simd_value_type X V CT = None) =
     (\<not> (has_simd_type X V \<and> (\<forall>ct \<in> set CT. has_simd_type X (xvalue_type ct))))"
    by (simp add: simd_value_type_def simd_arguments_exist_iff)
  ultimately show ?thesis using one [of V F CT] by blast
qed

theorem batch_eligibility_witness:
  "has_simd_interface example_xsimd outer_type \<and>
   inner_type \<in> set [inner_type, Operand_type Double True] \<and>
   has_simd_interface example_xsimd inner_type \<and>
   \<not> has_simd_interface example_xsimd outer_type_no_batch \<and>
   \<not> has_simd_interface example_xsimd
        (Xfunction_type String plus_functor [Operand_type Double True]) \<and>
   simd_value_type example_xsimd String [Operand_type Double True] = None"
proof -
  have a: "has_simd_interface example_xsimd outer_type"
    using batch_eligibility [of example_xsimd Double plus_functor
        "[inner_type, Operand_type Double True]" Double plus_functor
        "[Operand_type Double True, Operand_type Double True]"]
    by (simp add: type_eval)
  have m: "inner_type \<in> set [inner_type, Operand_type Double True]" by simp
  have b: "has_simd_interface example_xsimd inner_type"
    using batch_eligibility [of example_xsimd Double plus_functor
        "[inner_type, Operand_type Double True]" Double plus_functor
        "[Operand_type Double True, Operand_type Double True]"] a m
    by (simp add: type_eval)
  have c: "\<not> has_simd_interface example_xsimd outer_type_no_batch"
    using batch_eligibility [of example_xsimd Double plus_functor
        "[Xfunction_type Double plus_functor
          [Operand_type Double True, Operand_type Double False],
        Operand_type Double True]" Double plus_functor
        "[Operand_type Double True, Operand_type Double False]"]
    by (simp add: type_eval)
  have d: "\<not> has_simd_interface example_xsimd
        (Xfunction_type String plus_functor [Operand_type Double True]) \<and>
     simd_value_type example_xsimd String [Operand_type Double True] = None"
    using batch_eligibility [of example_xsimd String plus_functor
        "[Operand_type Double True]" Double plus_functor "[]"]
    by (simp add: type_eval)
  from a m b c d show ?thesis by blast
qed

lemma map_zip_nth:
  assumes "length xs = length ys"
  shows "map f (zip xs ys) = map (\<lambda>k. f (xs ! k, ys ! k)) [0..<length ys]"
  using assms by (intro nth_equalityI) simp_all

text \<open>
  C7. The batch returned by \<open>step_simd<ST>()\<close> is the functor's \<open>simd_apply\<close> on the
  batches of the sub-steppers, in operand order, where the sub-stepper of operand \<open>k\<close>
  is asked for the node's common \<open>simd_argument_type\<close> when \<open>ST\<close> is a boolean batch, and
  otherwise for the operand's own \<open>simd_value_type\<close> when that is a boolean or a complex
  batch, and for \<open>ST\<close> when it is neither.
\<close>

theorem step_simd_batch_types:
  assumes "length (operand_simd_value_type stepper) = length (m_st stepper)"
  shows "fst (step_simd X stepper ST) =
     simd_apply stepper
       (map (\<lambda>k. fst (st_step_simd (m_st stepper ! k)
                       (if is_batch_bool X ST then simd_argument_type stepper
                        else if is_batch_bool X (operand_simd_value_type stepper ! k) \<or>
                                is_batch_complex X (operand_simd_value_type stepper ! k)
                             then operand_simd_value_type stepper ! k
                             else ST)
                       (st_state (m_st stepper ! k))))
          [0..<length (m_st stepper)])"
  by (simp add: step_simd_def step_simd_impl_def Let_def map_zip_nth [OF assms] o_def
      substepper_step_simd_def get_simd_type_def split_beta cong: if_cong)

theorem step_simd_batch_types_witness:
  "length (operand_simd_value_type example_stepper) = length (m_st example_stepper) \<and>
   fst (step_simd example_xsimd example_stepper Batch_double) =
     [(Batch_bool, 0), (Batch_double, 7)] \<and>
   fst (step_simd example_xsimd example_stepper Batch_bool) =
     [(Batch_double, 0), (Batch_double, 7)]"
proof -
  have l: "length (operand_simd_value_type example_stepper) = length (m_st example_stepper)"
    by (simp add: stepper_eval)
  have u: "[0..<length (m_st example_stepper)] = [0, 1]"
    by (simp add: stepper_eval upt_conv_Cons)
  from step_simd_batch_types [OF l, of example_xsimd Batch_double] u
  have "fst (step_simd example_xsimd example_stepper Batch_double) =
     [(Batch_bool, 0), (Batch_double, 7)]"
    by (simp add: stepper_eval)
  moreover from step_simd_batch_types [OF l, of example_xsimd Batch_bool] u
  have "fst (step_simd example_xsimd example_stepper Batch_bool) =
     [(Batch_double, 0), (Batch_double, 7)]"
    by (simp add: stepper_eval)
  ultimately show ?thesis using l by simp
qed

end
